theory Spec2Isabelle
  imports Complex_Main "HOL-Library.Word"
begin

section \<open>Values of the program\<close>

text \<open>
  The program is one Python module, \<^verbatim>\<open>main.py\<close>. Its helpers raise exceptions; here
  every helper returns \<open>error + 'a\<close>, with \<open>Inl\<close> the exception that leaves the helper.
  \<open>HTTPException status detail\<close> is the exception the module constructs itself;
  \<open>PyException name\<close> is any other Python exception, either one the interpreter
  raises (\<open>AttributeError\<close>, \<open>TypeError\<close>, ...) or one a library call raised and the
  module lets through, named by its text.
\<close>

datatype error = HTTPException nat string | PyException string

text \<open>
  What \<^verbatim>\<open>json.loads\<close> returns. A Python dict is kept as an association list
  (insertion order, looked up with \<open>map_of\<close>). The type \<open>'f\<close> stands for Python's
  \<^verbatim>\<open>float\<close>: the program never looks inside a float, it only passes floats to the
  arithmetic of the interpreter, which is part of the platform below.
\<close>

datatype 'f json =
    JNull
  | JBool bool
  | JInt int
  | JFloat 'f
  | JStr string
  | JList "'f json list"
  | JDict "(string \<times> 'f json) list"

type_synonym bytes = "8 word list"

text \<open>A PIL image: its colour mode and its raster, which the program never reads.\<close>

record image =
  mode :: string
  raster :: "nat list"

text \<open>
  The reply of \<^verbatim>\<open>client.models.generate_content\<close>: \<^verbatim>\<open>res.text\<close> (which may be
  \<^verbatim>\<open>None\<close>) and \<^verbatim>\<open>res.usage_metadata\<close> (absent, or an object whose attributes are
  integers or \<^verbatim>\<open>None\<close>).
\<close>

record response =
  res_text :: "string option"
  usage_metadata :: "(string \<times> int option) list option"

section \<open>The platform: libraries and services the module calls\<close>

text \<open>
  None of these is code of the module. Each is a field of the platform record, so every
  theorem below holds whatever the libraries compute. A library call that raises returns
  \<open>Inl\<close> with the text of the exception (\<open>None\<close> where only the failure matters).
  \<^item> \<open>convert_from_bytes\<close>: \<^verbatim>\<open>pdf2image.convert_from_bytes(file_bytes)\<close>;
  \<^item> \<open>image_open\<close>: \<^verbatim>\<open>Image.open(io.BytesIO(file_bytes))\<close>;
  \<^item> \<open>convert_raster\<close>: the raster that \<^verbatim>\<open>Image.convert(mode)\<close> computes;
  \<^item> \<open>generate_content\<close>: the model call, with the module's fixed prompt and model name;
  \<^item> \<open>json_loads\<close>: \<^verbatim>\<open>json.loads\<close>;
  \<^item> \<open>ratio\<close>: \<^verbatim>\<open>SequenceMatcher(None, a, b).ratio()\<close> of \<^verbatim>\<open>difflib\<close>;
  \<^item> \<open>float_of_int\<close>, \<open>float_of_str\<close>: \<^verbatim>\<open>float(x)\<close> on an int and on a str;
  \<^item> \<open>float_literal\<close>: the float a literal of the source text denotes;
  \<^item> \<open>float_sub\<close>, \<open>float_abs\<close>, \<open>float_le\<close>: \<^verbatim>\<open>a - b\<close>, \<^verbatim>\<open>abs(a)\<close>, \<^verbatim>\<open>a <= b\<close> on floats.
\<close>

record 'f platform =
  convert_from_bytes :: "bytes \<Rightarrow> string + image list"
  image_open :: "bytes \<Rightarrow> string + image"
  convert_raster :: "image \<Rightarrow> string \<Rightarrow> string + nat list"
  generate_content :: "image \<Rightarrow> string + response"
  json_loads :: "string \<Rightarrow> string + 'f json"
  ratio :: "string \<Rightarrow> string \<Rightarrow> 'f"
  float_of_int :: "int \<Rightarrow> 'f option"
  float_of_str :: "string \<Rightarrow> 'f option"
  float_literal :: "string \<Rightarrow> 'f"
  float_sub :: "'f \<Rightarrow> 'f \<Rightarrow> 'f"
  float_abs :: "'f \<Rightarrow> 'f"
  float_le :: "'f \<Rightarrow> 'f \<Rightarrow> bool"

section \<open>Built-in string operations\<close>

text \<open>
  \<^verbatim>\<open>s.find(c)\<close>: the lowest index of the character, or \<open>-1\<close>.
  \<^verbatim>\<open>s.rfind(c)\<close>: the highest index, or \<open>-1\<close>. Both scan with a running index.
\<close>

fun find_from :: "char \<Rightarrow> string \<Rightarrow> int \<Rightarrow> int" where
  "find_from c [] i = -1"
| "find_from c (x # xs) i = (if x = c then i else find_from c xs (i + 1))"

definition find_str :: "string \<Rightarrow> char \<Rightarrow> int" where
  "find_str s c = find_from c s 0"

fun rfind_from :: "char \<Rightarrow> string \<Rightarrow> int \<Rightarrow> int" where
  "rfind_from c [] i = -1"
| "rfind_from c (x # xs) i =
     (let r = rfind_from c xs (i + 1)
      in if r \<noteq> -1 then r else if x = c then i else -1)"

definition rfind_str :: "string \<Rightarrow> char \<Rightarrow> int" where
  "rfind_str s c = rfind_from c s 0"

text \<open>
  \<^verbatim>\<open>s[i:j]\<close>: a negative bound counts from the end, both bounds are clamped to the
  string, and the slice is empty when the upper bound is not above the lower one.
\<close>

definition clamp_index :: "nat \<Rightarrow> int \<Rightarrow> nat" where
  "clamp_index n i =
     (let j = (if i < 0 then i + int n else i)
      in if j < 0 then 0 else if int n < j then n else nat j)"

definition slice :: "'a list \<Rightarrow> int \<Rightarrow> int \<Rightarrow> 'a list" where
  "slice s i j = drop (clamp_index (length s) i) (take (clamp_index (length s) j) s)"

text \<open>
  \<^verbatim>\<open>s.lower()\<close>, on the ASCII letters; every other character is left as it is.
  \<^verbatim>\<open>s.endswith(suffix)\<close>.
\<close>

definition lower_char :: "char \<Rightarrow> char" where
  "lower_char c =
     (case map_of (zip ''ABCDEFGHIJKLMNOPQRSTUVWXYZ'' ''abcdefghijklmnopqrstuvwxyz'') c of
        None \<Rightarrow> c
      | Some l \<Rightarrow> l)"

definition lower :: "string \<Rightarrow> string" where
  "lower s = map lower_char s"

definition endswith :: "string \<Rightarrow> string \<Rightarrow> bool" where
  "endswith s suffix =
     (length suffix \<le> length s \<and> drop (length s - length suffix) s = suffix)"

section \<open>The helpers\<close>

subsection \<open>\<^verbatim>\<open>find_json\<close>\<close>

definition find_json :: "'f platform \<Rightarrow> string \<Rightarrow> error + 'f json" where
  "find_json env txt =
     (let start = find_str txt CHR ''{'';
          end' = rfind_str txt CHR ''}''
      in if start = -1 \<or> end' = -1
         then Inl (HTTPException 500 ''Gemini output contains no JSON'')
         else (case json_loads env (slice txt start (end' + 1)) of
                 Inl e \<Rightarrow> Inl (HTTPException 500 (''JSON parsing failed: '' @ e))
               | Inr v \<Rightarrow> Inr v))"

subsection \<open>\<^verbatim>\<open>pdf_or_image_to_pages\<close>\<close>

text \<open>
  \<^verbatim>\<open>im.convert(mode)\<close> returns a new image in the requested mode; the raster is the
  library's. \<open>open_rgb\<close> is the expression
  \<^verbatim>\<open>Image.open(io.BytesIO(file_bytes)).convert("RGB")\<close>, which raises when either call does.
\<close>

definition convert :: "'f platform \<Rightarrow> image \<Rightarrow> string \<Rightarrow> string + image" where
  "convert env im m =
     (case convert_raster env im m of
        Inl e \<Rightarrow> Inl e
      | Inr px \<Rightarrow> Inr \<lparr>mode = m, raster = px\<rparr>)"

definition open_rgb :: "'f platform \<Rightarrow> bytes \<Rightarrow> string + image" where
  "open_rgb env file_bytes =
     (case image_open env file_bytes of
        Inl e \<Rightarrow> Inl e
      | Inr im \<Rightarrow> convert env im ''RGB'')"

text \<open>
  The outer \<^verbatim>\<open>try\<close> runs one decoder, chosen by the suffix of the lowered URL. Its bare
  \<^verbatim>\<open>except\<close> runs the PDF converter, and the inner bare \<^verbatim>\<open>except\<close> runs the image
  decoder outside any handler: what that last call raises leaves the function.
\<close>

definition pdf_or_image_to_pages ::
  "'f platform \<Rightarrow> bytes \<Rightarrow> string \<Rightarrow> error + image list" where
  "pdf_or_image_to_pages env file_bytes url0 =
     (let url = lower url0
      in case (if endswith url ''.pdf''
               then convert_from_bytes env file_bytes
               else (case open_rgb env file_bytes of
                       Inl e \<Rightarrow> Inl e
                     | Inr img \<Rightarrow> Inr [img])) of
           Inr pages \<Rightarrow> Inr pages
         | Inl _ \<Rightarrow>
             (case convert_from_bytes env file_bytes of
                Inr pages \<Rightarrow> Inr pages
              | Inl _ \<Rightarrow>
                  (case open_rgb env file_bytes of
                     Inl e \<Rightarrow> Inl (PyException e)
                   | Inr img \<Rightarrow> Inr [img])))"

subsection \<open>\<^verbatim>\<open>call_gemini_page\<close>\<close>

text \<open>
  \<^verbatim>\<open>getattr(usage, name, 0) if usage else 0\<close>: \<open>Some n\<close> is the integer \<open>n\<close>,
  \<open>None\<close> is an attribute that is present and holds \<^verbatim>\<open>None\<close>.
\<close>

definition token_count :: "response \<Rightarrow> string \<Rightarrow> int option" where
  "token_count res name =
     (case usage_metadata res of
        None \<Rightarrow> Some 0
      | Some usage \<Rightarrow> (case map_of usage name of None \<Rightarrow> Some 0 | Some v \<Rightarrow> v))"

definition call_gemini_page ::
  "'f platform \<Rightarrow> image \<Rightarrow> error + ('f json \<times> int option \<times> int option \<times> int option)" where
  "call_gemini_page env img =
     (case generate_content env img of
        Inl e \<Rightarrow> Inl (PyException e)
      | Inr res \<Rightarrow>
          (case res_text res of
             None \<Rightarrow> Inl (PyException ''AttributeError'')
           | Some txt \<Rightarrow>
               (case find_json env txt of
                  Inl e \<Rightarrow> Inl e
                | Inr data \<Rightarrow>
                    Inr (data,
                         token_count res ''total_token_count'',
                         token_count res ''input_token_count'',
                         token_count res ''output_token_count''))))"

subsection \<open>\<^verbatim>\<open>similarity\<close> and \<^verbatim>\<open>dedupe_items\<close>\<close>

text \<open>
  An item is the dict the pipeline builds. \<^verbatim>\<open>item_name\<close> is whatever JSON value the
  model gave; the three numbers are floats.
\<close>

record 'f item =
  item_name :: "'f json"
  item_amount :: 'f
  item_rate :: 'f
  item_quantity :: 'f

text \<open>\<^verbatim>\<open>a.lower()\<close> exists on a str only: any other value raises \<^verbatim>\<open>AttributeError\<close>.\<close>

fun str_lower :: "'f json \<Rightarrow> error + string" where
  "str_lower (JStr s) = Inr (lower s)"
| "str_lower _ = Inl (PyException ''AttributeError'')"

definition similarity :: "'f platform \<Rightarrow> 'f json \<Rightarrow> 'f json \<Rightarrow> error + 'f" where
  "similarity env a b =
     (case str_lower a of
        Inl e \<Rightarrow> Inl e
      | Inr la \<Rightarrow>
          (case str_lower b of
             Inl e \<Rightarrow> Inl e
           | Inr lb \<Rightarrow> Inr (ratio env la lb)))"

text \<open>
  The inner loop of \<^verbatim>\<open>dedupe_items\<close>: it walks \<^verbatim>\<open>unique\<close> from the front and leaves
  at the first duplicate. \<^verbatim>\<open>x >= threshold\<close> is \<^verbatim>\<open>threshold <= x\<close>; \<^verbatim>\<open>and\<close>
  evaluates the amounts only when the names are similar.
\<close>

fun is_duplicate :: "'f platform \<Rightarrow> 'f \<Rightarrow> 'f \<Rightarrow> 'f item \<Rightarrow> 'f item list \<Rightarrow> error + bool" where
  "is_duplicate env threshold tol it [] = Inr False"
| "is_duplicate env threshold tol it (u # unique) =
     (case similarity env (item_name it) (item_name u) of
        Inl e \<Rightarrow> Inl e
      | Inr s \<Rightarrow>
          if float_le env threshold s
             \<and> float_le env (float_abs env (float_sub env (item_amount it) (item_amount u))) tol
          then Inr True
          else is_duplicate env threshold tol it unique)"

text \<open>The outer loop, with \<^verbatim>\<open>unique\<close> as the accumulator.\<close>

fun dedupe_loop ::
  "'f platform \<Rightarrow> 'f \<Rightarrow> 'f \<Rightarrow> 'f item list \<Rightarrow> 'f item list \<Rightarrow> error + 'f item list" where
  "dedupe_loop env threshold tol unique [] = Inr unique"
| "dedupe_loop env threshold tol unique (it # items) =
     (case is_duplicate env threshold tol it unique of
        Inl e \<Rightarrow> Inl e
      | Inr duplicate \<Rightarrow>
          dedupe_loop env threshold tol (if \<not> duplicate then unique @ [it] else unique) items)"

definition dedupe_items ::
  "'f platform \<Rightarrow> 'f item list \<Rightarrow> 'f \<Rightarrow> 'f \<Rightarrow> error + 'f item list" where
  "dedupe_items env items threshold tol = dedupe_loop env threshold tol [] items"

text \<open>The call with the default arguments \<^verbatim>\<open>threshold=0.92, tol=1.0\<close>.\<close>

definition dedupe_items_default :: "'f platform \<Rightarrow> 'f item list \<Rightarrow> error + 'f item list" where
  "dedupe_items_default env items =
     dedupe_items env items (float_literal env ''0.92'') (float_literal env ''1.0'')"

subsection \<open>\<^verbatim>\<open>extract_from_document\<close>\<close>

text \<open>
  The operations of the interpreter the pipeline applies to parsed JSON:
  \<^verbatim>\<open>data.get(key, default)\<close> (only a dict has \<^verbatim>\<open>get\<close>), \<^verbatim>\<open>item[key]\<close> with a
  string key, \<^verbatim>\<open>for item in x\<close> (a list gives its elements, a str its characters, a dict
  its keys, nothing else iterates), \<^verbatim>\<open>float(x)\<close> (a bool is an int), and \<^verbatim>\<open>n += t\<close>
  on a running integer.
\<close>

fun dict_get :: "'f json \<Rightarrow> string \<Rightarrow> 'f json \<Rightarrow> error + 'f json" where
  "dict_get (JDict kvs) key dflt = Inr (case map_of kvs key of None \<Rightarrow> dflt | Some v \<Rightarrow> v)"
| "dict_get _ key dflt = Inl (PyException ''AttributeError'')"

fun subscript :: "'f json \<Rightarrow> string \<Rightarrow> error + 'f json" where
  "subscript (JDict kvs) key =
     (case map_of kvs key of None \<Rightarrow> Inl (PyException ''KeyError'') | Some v \<Rightarrow> Inr v)"
| "subscript _ key = Inl (PyException ''TypeError'')"

fun iterate :: "'f json \<Rightarrow> error + 'f json list" where
  "iterate (JList xs) = Inr xs"
| "iterate (JStr s) = Inr (map (\<lambda>c. JStr [c]) s)"
| "iterate (JDict kvs) = Inr (map (\<lambda>kv. JStr (fst kv)) kvs)"
| "iterate _ = Inl (PyException ''TypeError'')"

fun float_of :: "'f platform \<Rightarrow> 'f json \<Rightarrow> error + 'f" where
  "float_of env (JFloat x) = Inr x"
| "float_of env (JInt n) =
     (case float_of_int env n of None \<Rightarrow> Inl (PyException ''OverflowError'') | Some x \<Rightarrow> Inr x)"
| "float_of env (JBool b) =
     (case float_of_int env (if b then 1 else 0) of
        None \<Rightarrow> Inl (PyException ''OverflowError'')
      | Some x \<Rightarrow> Inr x)"
| "float_of env (JStr s) =
     (case float_of_str env s of None \<Rightarrow> Inl (PyException ''ValueError'') | Some x \<Rightarrow> Inr x)"
| "float_of env _ = Inl (PyException ''TypeError'')"

definition add_tokens :: "int \<Rightarrow> int option \<Rightarrow> error + int" where
  "add_tokens n t = (case t of None \<Rightarrow> Inl (PyException ''TypeError'') | Some k \<Rightarrow> Inr (n + k))"

text \<open>Sequencing of two steps, the first of which may raise.\<close>

definition bind_err :: "error + 'a \<Rightarrow> ('a \<Rightarrow> error + 'b) \<Rightarrow> error + 'b" where
  "bind_err m f = (case m of Inl e \<Rightarrow> Inl e | Inr x \<Rightarrow> f x)"

text \<open>
  The body of the \<^verbatim>\<open>try\<close>: the dict display evaluates its four values in order, and
  any exception of theirs leaves it.
\<close>

definition make_itm :: "'f platform \<Rightarrow> 'f json \<Rightarrow> error + 'f item" where
  "make_itm env item =
     bind_err (subscript item ''item_name'') (\<lambda>name.
     bind_err (bind_err (subscript item ''amount'') (float_of env)) (\<lambda>amount.
     bind_err (bind_err (subscript item ''rate'') (float_of env)) (\<lambda>rate.
     bind_err (bind_err (subscript item ''quantity'') (float_of env)) (\<lambda>quantity.
       Inr \<lparr>item_name = name, item_amount = amount,
            item_rate = rate, item_quantity = quantity\<rparr>))))"

text \<open>
  The loop over the raw items of one page. The bare \<^verbatim>\<open>except\<close> turns every exception
  of the \<^verbatim>\<open>try\<close> into \<^verbatim>\<open>continue\<close>. The pair is \<^verbatim>\<open>(all_items, page_items)\<close>.
\<close>

fun items_loop ::
  "'f platform \<Rightarrow> 'f json list \<Rightarrow> 'f item list \<times> 'f item list \<Rightarrow> 'f item list \<times> 'f item list" where
  "items_loop env [] (all_items, page_items) = (all_items, page_items)"
| "items_loop env (item # rest) (all_items, page_items) =
     (case make_itm env item of
        Inl _ \<Rightarrow> items_loop env rest (all_items, page_items)
      | Inr itm \<Rightarrow> items_loop env rest (all_items @ [itm], page_items @ [itm]))"

text \<open>One entry of \<^verbatim>\<open>pagewise_output\<close>, and the variables the page loop updates.\<close>

record 'f page_line_items =
  page_no :: nat
  page_type :: "'f json"
  bill_items :: "'f item list"

record 'f state =
  all_items :: "'f item list"
  pagewise_output :: "'f page_line_items list"
  total_tokens :: int
  input_tokens :: int
  output_tokens :: int

text \<open>The body of the loop over the pages.\<close>

definition process_page :: "'f platform \<Rightarrow> nat \<Rightarrow> image \<Rightarrow> 'f state \<Rightarrow> error + 'f state" where
  "process_page env no img st =
     bind_err (call_gemini_page env img) (\<lambda>(data, t, i, o').
     bind_err (add_tokens (total_tokens st) t) (\<lambda>total.
     bind_err (add_tokens (input_tokens st) i) (\<lambda>input.
     bind_err (add_tokens (output_tokens st) o') (\<lambda>output.
     bind_err (bind_err (dict_get data ''items'' (JList [])) iterate) (\<lambda>raw_items.
     bind_err (dict_get data ''page_type'' (JStr ''Bill Detail'')) (\<lambda>ptype.
       (case items_loop env raw_items (all_items st, []) of
          (all_items', page_items) \<Rightarrow>
            Inr \<lparr>all_items = all_items',
                 pagewise_output = pagewise_output st @
                   [\<lparr>page_no = no, page_type = ptype, bill_items = page_items\<rparr>],
                 total_tokens = total, input_tokens = input, output_tokens = output\<rparr>)))))))"

text \<open>\<^verbatim>\<open>for page_no, img in enumerate(pages, start=1)\<close>.\<close>

fun pages_loop :: "'f platform \<Rightarrow> nat \<Rightarrow> image list \<Rightarrow> 'f state \<Rightarrow> error + 'f state" where
  "pages_loop env no [] st = Inr st"
| "pages_loop env no (img # pages) st =
     (case process_page env no img st of
        Inl e \<Rightarrow> Inl e
      | Inr st' \<Rightarrow> pages_loop env (no + 1) pages st')"

definition initial_state :: "'f state" where
  "initial_state =
     \<lparr>all_items = [], pagewise_output = [],
      total_tokens = 0, input_tokens = 0, output_tokens = 0\<rparr>"

definition extract_from_document ::
  "'f platform \<Rightarrow> bytes \<Rightarrow> string \<Rightarrow>
     error + ('f page_line_items list \<times> 'f item list \<times> nat \<times> int \<times> int \<times> int)" where
  "extract_from_document env file_bytes url =
     bind_err (pdf_or_image_to_pages env file_bytes url) (\<lambda>pages.
     bind_err (pages_loop env 1 pages initial_state) (\<lambda>st.
     bind_err (dedupe_items_default env (all_items st)) (\<lambda>unique_items.
       Inr (pagewise_output st, unique_items, length unique_items,
            total_tokens st, input_tokens st, output_tokens st))))"

section \<open>An example platform\<close>

text \<open>
  A small, deterministic platform on which the theorems below are instantiated. Floats
  are rationals with exact arithmetic. A document is a PDF when it starts with
  \<^verbatim>\<open>%PDF\<close> (each further byte is one RGB page) and an image when it starts with the
  JPEG marker (a greyscale image). The model answers by the first raster value of the
  page, and \<open>json_loads\<close> knows the three JSON texts the examples use.
\<close>

text \<open>
  The similarity of the example platform is the measure the specification words: twice
  the number of characters in the matching blocks, divided by the combined length, where
  the blocks are found by taking the longest common block (the earliest one in \<open>a\<close>,
  then in \<open>b\<close>) and recurring to its left and to its right.
\<close>

fun common_prefix :: "'a list \<Rightarrow> 'a list \<Rightarrow> nat" where
  "common_prefix (x # xs) (y # ys) = (if x = y then Suc (common_prefix xs ys) else 0)"
| "common_prefix _ _ = 0"

definition longest_block :: "string \<Rightarrow> string \<Rightarrow> nat \<times> nat \<times> nat" where
  "longest_block a b =
     foldl (\<lambda>(bi, bj, bk) (i, j).
              let k = common_prefix (drop i a) (drop j b)
              in if bk < k then (i, j, k) else (bi, bj, bk))
       (0, 0, 0) (List.product [0..<length a] [0..<length b])"

fun block_matches :: "nat \<Rightarrow> string \<Rightarrow> string \<Rightarrow> nat" where
  "block_matches 0 a b = 0"
| "block_matches (Suc n) a b =
     (case longest_block a b of
        (i, j, k) \<Rightarrow>
          if k = 0 then 0
          else block_matches n (take i a) (take j b) + k
               + block_matches n (drop (i + k) a) (drop (j + k) b))"

definition block_ratio :: "string \<Rightarrow> string \<Rightarrow> rat" where
  "block_ratio a b =
     (let n = length a + length b
      in if n = 0 then 1 else of_nat (2 * block_matches n a b) / of_nat n)"

definition demo_span1 :: string where
  \<open>demo_span1 = ''{"page_type": "Pharmacy", "items": [{"item_name": "Paracetamol 500mg", "quantity": 1, "rate": 10.0, "amount": 10.0}, {"item_name": "Gauze", "quantity": "two", "rate": 1, "amount": 2}, {"item_name": "Syringe", "quantity": 2, "rate": 2.5, "amount": "5.0"}]}''\<close>

definition demo_raws1 :: "rat json list" where
  "demo_raws1 =
     [JDict [(''item_name'', JStr ''Paracetamol 500mg''), (''quantity'', JInt 1),
             (''rate'', JFloat 10), (''amount'', JFloat 10)],
      JDict [(''item_name'', JStr ''Gauze''), (''quantity'', JStr ''two''),
             (''rate'', JInt 1), (''amount'', JInt 2)],
      JDict [(''item_name'', JStr ''Syringe''), (''quantity'', JInt 2),
             (''rate'', JFloat (5 / 2)), (''amount'', JStr ''5.0'')]]"

definition demo_data1 :: "rat json" where
  "demo_data1 = JDict [(''page_type'', JStr ''Pharmacy''), (''items'', JList demo_raws1)]"

definition demo_span2 :: string where
  \<open>demo_span2 = ''{"items": [{"item_name": "Paracetamol 500 mg", "quantity": 1, "rate": 10.5, "amount": 10.5}]}''\<close>

definition demo_data2 :: "rat json" where
  "demo_data2 =
     JDict [(''items'', JList [
               JDict [(''item_name'', JStr ''Paracetamol 500 mg''), (''quantity'', JInt 1),
                      (''rate'', JFloat (21 / 2)), (''amount'', JFloat (21 / 2))]])]"

definition demo_loads :: "string \<Rightarrow> string + rat json" where
  "demo_loads s =
     (if s = demo_span1 then Inr demo_data1
      else if s = demo_span2 then Inr demo_data2
      else if s = ''{}'' then Inr (JDict [])
      else Inl ''Expecting value'')"

definition demo_generate :: "image \<Rightarrow> string + response" where
  "demo_generate img =
     (if raster img = [1] then
        Inr \<lparr>res_text = Some (''Here is the JSON: '' @ demo_span1 @ '' Done.''),
             usage_metadata = Some [(''total_token_count'', Some 120)]\<rparr>
      else if raster img = [2] then
        Inr \<lparr>res_text = Some demo_span2, usage_metadata = None\<rparr>
      else Inl ''ServerError'')"

definition demo :: "rat platform" where
  "demo =
     \<lparr>convert_from_bytes = (\<lambda>b.
        if take 4 b = [0x25, 0x50, 0x44, 0x46]
        then Inr (map (\<lambda>w. \<lparr>mode = ''RGB'', raster = [unat w]\<rparr>) (drop 4 b))
        else Inl ''PDFPageCountError''),
      image_open = (\<lambda>b.
        if take 2 b = [0xFF, 0xD8]
        then Inr \<lparr>mode = ''L'', raster = map unat (drop 2 b)\<rparr>
        else Inl ''UnidentifiedImageError''),
      convert_raster = (\<lambda>im m. Inr (raster im)),
      generate_content = demo_generate,
      json_loads = demo_loads,
      ratio = block_ratio,
      float_of_int = (\<lambda>n. Some (of_int n)),
      float_of_str = (\<lambda>s. if s = ''5.0'' then Some 5 else None),
      float_literal = (\<lambda>s. if s = ''0.92'' then 92 / 100 else if s = ''1.0'' then 1 else 0),
      float_sub = (\<lambda>a b. a - b),
      float_abs = abs,
      float_le = (\<lambda>a b. a \<le> b)\<rparr>"

text \<open>Items and pages of the example platform.\<close>

definition paracetamol :: "rat item" where
  "paracetamol =
     \<lparr>item_name = JStr ''Paracetamol 500mg'', item_amount = 10,
      item_rate = 10, item_quantity = 1\<rparr>"

definition paracetamol_again :: "rat item" where
  "paracetamol_again =
     \<lparr>item_name = JStr ''Paracetamol 500 mg'', item_amount = 21 / 2,
      item_rate = 21 / 2, item_quantity = 1\<rparr>"

definition syringe :: "rat item" where
  "syringe =
     \<lparr>item_name = JStr ''Syringe'', item_amount = 5,
      item_rate = 5 / 2, item_quantity = 2\<rparr>"

definition syringe_dearer :: "rat item" where
  "syringe_dearer =
     \<lparr>item_name = JStr ''SYRINGE'', item_amount = 8,
      item_rate = 4, item_quantity = 2\<rparr>"

definition demo_items :: "rat item list" where
  "demo_items = [paracetamol, paracetamol_again, syringe, syringe_dearer]"

definition demo_unique :: "rat item list" where
  "demo_unique = [paracetamol, syringe, syringe_dearer]"

definition demo_pdf :: bytes where
  "demo_pdf = [0x25, 0x50, 0x44, 0x46, 1, 2]"

definition demo_page1 :: image where
  "demo_page1 = \<lparr>mode = ''RGB'', raster = [1]\<rparr>"


definition demo_pagewise :: "rat page_line_items list" where
  "demo_pagewise =
     [\<lparr>page_no = 1, page_type = JStr ''Pharmacy'', bill_items = [paracetamol, syringe]\<rparr>,
      \<lparr>page_no = 2, page_type = JStr ''Bill Detail'', bill_items = [paracetamol_again]\<rparr>]"




section \<open>The specification's notions\<close>

text \<open>
  These definitions follow the words of the specification, not the code; the theorems
  compare the code with them.
\<close>

text \<open>The span of a text from its first \<^verbatim>\<open>{\<close> to its last \<^verbatim>\<open>}\<close>, both included.\<close>

definition first_to_last :: "string \<Rightarrow> string" where
  "first_to_last txt =
     (let i = length (takeWhile (\<lambda>c. c \<noteq> CHR ''{'') txt);
          j = length txt - Suc (length (takeWhile (\<lambda>c. c \<noteq> CHR ''}'') (rev txt)))
      in drop i (take (Suc j) txt))"

text \<open>
  The rasterizer's policy: an ordered list of decoders, chosen by the hint, tried in
  turn; the first success is the result, and when none succeeds the failure is the last
  decoder's.
\<close>

datatype decoder = PdfConversion | ImageDecode

definition pdf_like :: "string \<Rightarrow> bool" where
  "pdf_like hint = (4 \<le> length hint \<and> lower (drop (length hint - 4) hint) = ''.pdf'')"

definition strategies :: "string \<Rightarrow> decoder list" where
  "strategies hint =
     (if pdf_like hint then [PdfConversion, ImageDecode]
      else [ImageDecode, PdfConversion, ImageDecode])"

fun run_decoder :: "'f platform \<Rightarrow> bytes \<Rightarrow> decoder \<Rightarrow> string + image list" where
  "run_decoder env b PdfConversion = convert_from_bytes env b"
| "run_decoder env b ImageDecode =
     (case open_rgb env b of Inl e \<Rightarrow> Inl e | Inr img \<Rightarrow> Inr [img])"

fun first_success :: "'f platform \<Rightarrow> bytes \<Rightarrow> decoder list \<Rightarrow> string + image list" where
  "first_success env b [] = Inl ''no decoder''"
| "first_success env b [d] = run_decoder env b d"
| "first_success env b (d # ds) =
     (case run_decoder env b d of
        Inr pages \<Rightarrow> Inr pages
      | Inl _ \<Rightarrow> first_success env b ds)"




text \<open>
  Normalisation of one raw item: its four fields are required, the name is copied and
  the three numbers are cast to float.
\<close>

fun field :: "'f json \<Rightarrow> string \<Rightarrow> 'f json option" where
  "field (JDict kvs) key = map_of kvs key"
| "field _ key = None"

definition cast :: "'f platform \<Rightarrow> 'f json \<Rightarrow> 'f option" where
  "cast env v = (case float_of env v of Inl _ \<Rightarrow> None | Inr x \<Rightarrow> Some x)"

definition coerce :: "'f platform \<Rightarrow> 'f json \<Rightarrow> 'f item option" where
  "coerce env raw =
     (case (field raw ''item_name'',
            Option.bind (field raw ''amount'') (cast env),
            Option.bind (field raw ''rate'') (cast env),
            Option.bind (field raw ''quantity'') (cast env)) of
        (Some name, Some amount, Some rate, Some quantity) \<Rightarrow>
          Some \<lparr>item_name = name, item_amount = amount,
                item_rate = rate, item_quantity = quantity\<rparr>
      | _ \<Rightarrow> None)"

text \<open>The items one page contributes: the model's answer, parsed, its raw items coerced.\<close>

definition page_bill_items :: "'f platform \<Rightarrow> image \<Rightarrow> error + 'f item list" where
  "page_bill_items env img =
     bind_err (call_gemini_page env img) (\<lambda>(data, t, i, o').
     bind_err (bind_err (dict_get data ''items'' (JList [])) iterate) (\<lambda>raw_items.
       Inr (List.map_filter (coerce env) raw_items)))"

section \<open>An invariant of the accepted list\<close>

text \<open>
  \<open>all_fresh accepted xs\<close>: each item of \<open>xs\<close>, met after \<open>accepted\<close> and the items
  of \<open>xs\<close> before it, passes the inner loop without raising and without a duplicate.
\<close>

fun all_fresh :: "'f platform \<Rightarrow> 'f \<Rightarrow> 'f \<Rightarrow> 'f item list \<Rightarrow> 'f item list \<Rightarrow> bool" where
  "all_fresh env threshold tol accepted [] = True"
| "all_fresh env threshold tol accepted (x # xs) =
     (is_duplicate env threshold tol x accepted = Inr False
      \<and> all_fresh env threshold tol (accepted @ [x]) xs)"

section \<open>The parser: \<^verbatim>\<open>find_json\<close>\<close>

subsection \<open>The index scans\<close>

lemma find_from_notin: "c \<notin> set s \<Longrightarrow> find_from c s i = -1"
  by (induction s arbitrary: i) auto

lemma find_from_in:
  "c \<in> set s \<Longrightarrow> find_from c s i = i + int (length (takeWhile (\<lambda>x. x \<noteq> c) s))"
  by (induction s arbitrary: i) auto

lemma rfind_from_notin: "c \<notin> set s \<Longrightarrow> rfind_from c s i = -1"
  by (induction s arbitrary: i) auto

lemma takeWhile_rev_less:
  "c \<in> set s \<Longrightarrow> length (takeWhile (\<lambda>x. x \<noteq> c) (rev s)) < length s"
proof -
  let ?P = "\<lambda>x. x \<noteq> c"
  assume "c \<in> set s"
  then have "takeWhile ?P (rev s) \<noteq> rev s"
    by (auto simp: takeWhile_eq_all_conv)
  then have "length (takeWhile ?P (rev s)) \<noteq> length (rev s)"
    by (metis takeWhile_eq_take take_all order_refl)
  moreover have "length (takeWhile ?P (rev s)) \<le> length (rev s)"
    by (rule length_takeWhile_le)
  ultimately show ?thesis by simp
qed

lemma rfind_from_in:
  "c \<in> set s \<Longrightarrow> 0 \<le> i \<Longrightarrow>
   rfind_from c s i = i + int (length s) - 1 - int (length (takeWhile (\<lambda>x. x \<noteq> c) (rev s)))"
proof (induction s arbitrary: i)
  case Nil
  then show ?case by simp
next
  case (Cons x xs)
  show ?case
  proof (cases "c \<in> set xs")
    case True
    then have r: "rfind_from c xs (i + 1) =
        i + 1 + int (length xs) - 1 - int (length (takeWhile (\<lambda>x. x \<noteq> c) (rev xs)))"
      using Cons.IH [of "i + 1"] Cons.prems by simp
    have lt: "length (takeWhile (\<lambda>x. x \<noteq> c) (rev xs)) < length xs"
      using True by (rule takeWhile_rev_less)
    have tw: "takeWhile (\<lambda>x. x \<noteq> c) (rev xs @ [x]) = takeWhile (\<lambda>x. x \<noteq> c) (rev xs)"
      using True by (intro takeWhile_append1 [where x = c]) auto
    from lt Cons.prems have "rfind_from c xs (i + 1) \<noteq> -1" unfolding r by linarith
    then show ?thesis using r tw by (simp add: Let_def)
  next
    case False
    then have xc: "x = c" using Cons.prems by simp
    have tw: "takeWhile (\<lambda>x. x \<noteq> c) (rev xs @ [x]) = rev xs"
      using False xc by (subst takeWhile_append2) auto
    show ?thesis using False xc tw by (simp add: rfind_from_notin)
  qed
qed

lemma slice_nonneg:
  "0 \<le> i \<Longrightarrow> 0 \<le> j \<Longrightarrow> slice s i j = drop (nat i) (take (nat j) s)"
  by (auto simp: slice_def clamp_index_def Let_def)

text \<open>With both braces present, the slice the code takes is the span of the specification.\<close>

lemma find_json_span:
  assumes "CHR ''{'' \<in> set s" and "CHR ''}'' \<in> set s"
  shows "slice s (find_str s CHR ''{'') (rfind_str s CHR ''}'' + 1) = first_to_last s"
proof -
  have f: "find_str s CHR ''{'' = int (length (takeWhile (\<lambda>c. c \<noteq> CHR ''{'') s))"
    using assms(1) by (simp add: find_str_def find_from_in)
  have lt: "length (takeWhile (\<lambda>x. x \<noteq> CHR ''}'') (rev s)) < length s"
    using assms(2) by (rule takeWhile_rev_less)
  have r: "rfind_str s CHR ''}'' =
      int (length s - Suc (length (takeWhile (\<lambda>c. c \<noteq> CHR ''}'') (rev s))))"
    using assms(2) lt by (simp add: rfind_str_def rfind_from_in)
  have n: "nat (rfind_str s CHR ''}'' + 1) =
      Suc (length s - Suc (length (takeWhile (\<lambda>c. c \<noteq> CHR ''}'') (rev s))))"
    unfolding r by linarith
  have "slice s (find_str s CHR ''{'') (rfind_str s CHR ''}'' + 1) =
      drop (nat (find_str s CHR ''{'')) (take (nat (rfind_str s CHR ''}'' + 1)) s)"
    by (rule slice_nonneg) (simp_all add: f r)
  then show ?thesis
    unfolding n by (simp add: f first_to_last_def Let_def)
qed

lemma find_json_no_brace:
  assumes "CHR ''{'' \<notin> set s \<or> CHR ''}'' \<notin> set s"
  shows "find_json env s = Inl (HTTPException 500 ''Gemini output contains no JSON'')"
  using assms
  by (auto simp: find_json_def find_str_def rfind_str_def find_from_notin rfind_from_notin Let_def)

lemma find_json_both_braces:
  assumes a: "CHR ''{'' \<in> set s" and b: "CHR ''}'' \<in> set s"
  shows "find_json env s =
          (case json_loads env (first_to_last s) of
             Inl e \<Rightarrow> Inl (HTTPException 500 (''JSON parsing failed: '' @ e))
           | Inr v \<Rightarrow> Inr v)"
proof -
  have "find_str s CHR ''{'' \<noteq> -1"
    using a by (simp add: find_str_def find_from_in)
  moreover have "rfind_str s CHR ''}'' \<noteq> -1"
    using b takeWhile_rev_less [OF b] by (simp add: rfind_str_def rfind_from_in)
  ultimately show ?thesis
    using find_json_span [OF a b] by (simp add: find_json_def Let_def)
qed

lemma first_to_last_reversed:
  assumes "s = pre @ post" and "CHR ''{'' \<notin> set pre" and "CHR ''}'' \<notin> set post"
      and "CHR ''}'' \<in> set pre"
  shows "first_to_last s = []"
proof -
  let ?i = "length (takeWhile (\<lambda>c. c \<noteq> CHR ''{'') s)"
  let ?t = "length (takeWhile (\<lambda>c. c \<noteq> CHR ''}'') (rev s))"
  have "takeWhile (\<lambda>c. c \<noteq> CHR ''{'') (pre @ post)
      = pre @ takeWhile (\<lambda>c. c \<noteq> CHR ''{'') post"
    by (rule takeWhile_append2) (use assms(2) in auto)
  then have i: "length pre \<le> ?i"
    using assms(1) by simp
  have "takeWhile (\<lambda>c. c \<noteq> CHR ''}'') (rev post @ rev pre)
      = rev post @ takeWhile (\<lambda>c. c \<noteq> CHR ''}'') (rev pre)"
    by (rule takeWhile_append2) (use assms(3) in auto)
  then have j: "length post \<le> ?t"
    using assms(1) by simp
  have "CHR ''}'' \<in> set s"
    using assms(1,4) by simp
  then have lt: "?t < length s"
    by (rule takeWhile_rev_less)
  have len: "length s = length pre + length post"
    using assms(1) by simp
  have "Suc (length s - Suc ?t) \<le> ?i"
    using i j lt len by linarith
  then have "take (Suc (length s - Suc ?t)) s = take (Suc (length s - Suc ?t)) (take ?i s)"
    by (simp add: min_def)
  then have "drop ?i (take (Suc (length s - Suc ?t)) s) = []"
    by simp
  then show ?thesis
    by (simp add: first_to_last_def Let_def)
qed


subsection \<open>The example platform's JSON reader\<close>

lemma demo_loads_braces: "json_loads demo ''{}'' = Inr (JDict [])"
  by (simp add: demo_def demo_loads_def demo_span1_def demo_span2_def)

lemma demo_loads_empty: "json_loads demo [] = Inl ''Expecting value''"
  by (simp add: demo_def demo_loads_def demo_span1_def demo_span2_def)

lemma demo_loads_x: "json_loads demo ''{x}'' = Inl ''Expecting value''"
  by (simp add: demo_def demo_loads_def demo_span1_def demo_span2_def)

subsection \<open>What the parser returns\<close>

text \<open>
  C3. For every text, \<open>find_json\<close> fails with the no-JSON error exactly when the text has
  no \<^verbatim>\<open>{\<close> or no \<^verbatim>\<open>}\<close>. When both are there it hands the span from the first
  \<^verbatim>\<open>{\<close> to the last \<^verbatim>\<open>}\<close> to the JSON reader: a span the reader rejects gives the
  malformed-JSON error (with the reader's message), a span it accepts gives the parsed
  value.
\<close>

theorem find_json_cases:
  "((find_json env s = Inl (HTTPException 500 ''Gemini output contains no JSON''))
      \<longleftrightarrow> (CHR ''{'' \<notin> set s \<or> CHR ''}'' \<notin> set s))
   \<and> (CHR ''{'' \<in> set s \<and> CHR ''}'' \<in> set s \<longrightarrow>
        find_json env s =
          (case json_loads env (first_to_last s) of
             Inl e \<Rightarrow> Inl (HTTPException 500 (''JSON parsing failed: '' @ e))
           | Inr v \<Rightarrow> Inr v))"
proof -
  have neq: "find_json env s \<noteq> Inl (HTTPException 500 ''Gemini output contains no JSON'')"
    if a: "CHR ''{'' \<in> set s" and b: "CHR ''}'' \<in> set s"
    unfolding find_json_both_braces [OF a b] by (simp split: sum.splits)
  show ?thesis
    using find_json_no_brace [of s env] find_json_both_braces [of s env] neq by blast
qed

theorem find_json_cases_witness:
  "find_json demo ''no data here'' = Inl (HTTPException 500 ''Gemini output contains no JSON'')
   \<and> first_to_last ''Sure: {} done'' = ''{}''
   \<and> find_json demo ''Sure: {} done'' = Inr (JDict [])
   \<and> first_to_last ''Sure: {x} done'' = ''{x}''
   \<and> find_json demo ''Sure: {x} done''
       = Inl (HTTPException 500 ''JSON parsing failed: Expecting value'')"
proof -
  have a: "first_to_last ''Sure: {} done'' = ''{}''"
    by (simp add: first_to_last_def)
  have b: "first_to_last ''Sure: {x} done'' = ''{x}''"
    by (simp add: first_to_last_def)
  show ?thesis
    using find_json_cases [of demo "''no data here''"]
      find_json_cases [of demo "''Sure: {} done''"]
      find_json_cases [of demo "''Sure: {x} done''"]
    by (simp add: a b demo_loads_braces demo_loads_x)
qed

text \<open>
  C10. A text that has both braces, with every \<^verbatim>\<open>}\<close> before every \<^verbatim>\<open>{\<close> (it splits
  into a part holding the closing braces and a part holding the opening ones), does not
  give the no-JSON error: the span is empty, the reader is run on the empty string, and
  since the empty string is not JSON the result is the malformed-JSON error.
\<close>

theorem find_json_reversed_braces:
  assumes "s = pre @ post"
      and "CHR ''}'' \<in> set pre" and "CHR ''{'' \<notin> set pre"
      and "CHR ''{'' \<in> set post" and "CHR ''}'' \<notin> set post"
      and "json_loads env [] = Inl e"
  shows "find_json env s = Inl (HTTPException 500 (''JSON parsing failed: '' @ e))
       \<and> find_json env s \<noteq> Inl (HTTPException 500 ''Gemini output contains no JSON'')"
proof -
  have a: "CHR ''{'' \<in> set s" and b: "CHR ''}'' \<in> set s"
    using assms(1,2,4) by simp_all
  have "first_to_last s = []"
    using assms(1,3,5,2) by (rule first_to_last_reversed)
  then show ?thesis
    using find_json_both_braces [OF a b, of env] assms(6) by simp
qed

theorem find_json_reversed_braces_witness:
  "''}{'' = ''}'' @ ''{''
   \<and> CHR ''}'' \<in> set ''}'' \<and> CHR ''{'' \<notin> set ''}''
   \<and> CHR ''{'' \<in> set ''{'' \<and> CHR ''}'' \<notin> set ''{''
   \<and> json_loads demo [] = Inl ''Expecting value''
   \<and> find_json demo ''}{'' = Inl (HTTPException 500 ''JSON parsing failed: Expecting value'')"
  using find_json_reversed_braces [of "''}{''" "''}''" "''{''" demo "''Expecting value''"]
  by (simp add: demo_loads_empty)



section \<open>The rasterizer: \<^verbatim>\<open>pdf_or_image_to_pages\<close>\<close>

lemma lower_char_p: "lower_char c = CHR ''p'' \<longleftrightarrow> c = CHR ''p'' \<or> c = CHR ''P''"
  by (simp add: lower_char_def)

lemma lower_char_d: "lower_char c = CHR ''d'' \<longleftrightarrow> c = CHR ''d'' \<or> c = CHR ''D''"
  by (simp add: lower_char_def)

lemma lower_char_f: "lower_char c = CHR ''f'' \<longleftrightarrow> c = CHR ''f'' \<or> c = CHR ''F''"
  by (simp add: lower_char_def)

lemma lower_char_dot: "lower_char c = CHR ''.'' \<longleftrightarrow> c = CHR ''.''"
  by (simp add: lower_char_def)

lemma lower_pdf_iff:
  "lower s = ''.pdf'' \<longleftrightarrow>
     (\<exists>p d f. s = [CHR ''.'', p, d, f] \<and> p \<in> {CHR ''p'', CHR ''P''}
        \<and> d \<in> {CHR ''d'', CHR ''D''} \<and> f \<in> {CHR ''f'', CHR ''F''})"
  unfolding lower_def
  by (auto simp: map_eq_Cons_conv lower_char_p lower_char_d lower_char_f lower_char_dot)

lemma endswith_lower_pdf_like: "endswith (lower hint) ''.pdf'' = pdf_like hint"
  by (simp add: endswith_def pdf_like_def lower_def drop_map eval_nat_numeral)

lemma pdf_like_iff:
  "pdf_like hint \<longleftrightarrow>
     (\<exists>stem p d f. hint = stem @ [CHR ''.'', p, d, f] \<and> p \<in> {CHR ''p'', CHR ''P''}
        \<and> d \<in> {CHR ''d'', CHR ''D''} \<and> f \<in> {CHR ''f'', CHR ''F''})"
proof
  assume "pdf_like hint"
  then have len: "4 \<le> length hint" and low: "lower (drop (length hint - 4) hint) = ''.pdf''"
    by (simp_all add: pdf_like_def)
  from low obtain p d f where ext: "drop (length hint - 4) hint = [CHR ''.'', p, d, f]"
    and pdf: "p \<in> {CHR ''p'', CHR ''P''}" "d \<in> {CHR ''d'', CHR ''D''}" "f \<in> {CHR ''f'', CHR ''F''}"
    unfolding lower_pdf_iff by blast
  have "hint = take (length hint - 4) hint @ drop (length hint - 4) hint" by simp
  with ext pdf show "\<exists>stem p d f. hint = stem @ [CHR ''.'', p, d, f] \<and> p \<in> {CHR ''p'', CHR ''P''}
        \<and> d \<in> {CHR ''d'', CHR ''D''} \<and> f \<in> {CHR ''f'', CHR ''F''}"
    by metis
next
  assume "\<exists>stem p d f. hint = stem @ [CHR ''.'', p, d, f] \<and> p \<in> {CHR ''p'', CHR ''P''}
        \<and> d \<in> {CHR ''d'', CHR ''D''} \<and> f \<in> {CHR ''f'', CHR ''F''}"
  then obtain stem p d f where h: "hint = stem @ [CHR ''.'', p, d, f]"
    and pdf: "p \<in> {CHR ''p'', CHR ''P''}" "d \<in> {CHR ''d'', CHR ''D''}" "f \<in> {CHR ''f'', CHR ''F''}"
    by blast
  have "lower [CHR ''.'', p, d, f] = ''.pdf''"
    unfolding lower_pdf_iff using pdf by blast
  then show "pdf_like hint"
    by (simp add: pdf_like_def h)
qed


lemma demo_jpeg_bytes:
  "convert_from_bytes demo [0xFF, 0xD8, 7] = Inl ''PDFPageCountError''"
  "open_rgb demo [0xFF, 0xD8, 7] = Inr \<lparr>mode = ''RGB'', raster = [7]\<rparr>"
  by (simp_all add: demo_def open_rgb_def convert_def)


text \<open>
  C4. For every document and hint the rasterizer follows the policy: the hint is
  PDF-like when it ends in \<^verbatim>\<open>.pdf\<close> in any letter case; a PDF-like hint tries the
  PDF conversion and then the single-image decode, any other hint tries the image
  decode, then the PDF conversion, then the image decode again; the first decoder that
  succeeds gives the pages. (After a failed first attempt the code always runs the PDF
  conversion before the image decode; for a PDF-like hint this repeats the call that has
  just failed, on the same bytes.)
\<close>

theorem rasterizer_policy:
  "pdf_or_image_to_pages env file_bytes url =
     (case first_success env file_bytes (strategies url) of
        Inl e \<Rightarrow> Inl (PyException e)
      | Inr pages \<Rightarrow> Inr pages)
   \<and> (pdf_like url \<longleftrightarrow>
        (\<exists>stem p d f. url = stem @ [CHR ''.'', p, d, f] \<and> p \<in> {CHR ''p'', CHR ''P''}
           \<and> d \<in> {CHR ''d'', CHR ''D''} \<and> f \<in> {CHR ''f'', CHR ''F''}))"
proof -
  have "pdf_or_image_to_pages env file_bytes url =
     (case first_success env file_bytes (strategies url) of
        Inl e \<Rightarrow> Inl (PyException e)
      | Inr pages \<Rightarrow> Inr pages)"
    by (simp add: pdf_or_image_to_pages_def endswith_lower_pdf_like strategies_def Let_def
          split: sum.splits)
  then show ?thesis
    using pdf_like_iff [of url] by blast
qed

theorem rasterizer_policy_witness:
  "pdf_or_image_to_pages demo [0xFF, 0xD8, 7] ''http://host/scan.PDF''
     = Inr [\<lparr>mode = ''RGB'', raster = [7]\<rparr>]
   \<and> strategies ''http://host/scan.PDF'' = [PdfConversion, ImageDecode]
   \<and> pdf_like ''http://host/scan.PDF''"
proof -
  have p: "pdf_like ''http://host/scan.PDF''"
    using rasterizer_policy [of demo "[0xFF, 0xD8, 7]" "''http://host/scan.PDF''"]
    by (metis append_Cons append_Nil insertI1 insertI2)
  then have s: "strategies ''http://host/scan.PDF'' = [PdfConversion, ImageDecode]"
    by (simp add: strategies_def)
  show ?thesis
    using rasterizer_policy [of demo "[0xFF, 0xD8, 7]" "''http://host/scan.PDF''"] p
    by (simp add: s demo_jpeg_bytes)
qed









section \<open>Deduplication: \<^verbatim>\<open>dedupe_items\<close>\<close>



lemma all_fresh_snoc:
  "all_fresh env threshold tol base (pre @ [x])
   = (all_fresh env threshold tol base pre
      \<and> is_duplicate env threshold tol x (base @ pre) = Inr False)"
  by (induction pre arbitrary: base) auto

lemma dedupe_loop_fresh:
  assumes "dedupe_loop env threshold tol (base @ pre) items = Inr res"
      and "all_fresh env threshold tol base pre"
  shows "\<exists>kept. res = base @ kept \<and> all_fresh env threshold tol base kept"
  using assms
proof (induction items arbitrary: pre)
  case Nil
  then show ?case by auto
next
  case (Cons it items)
  from Cons.prems(1) obtain d where d: "is_duplicate env threshold tol it (base @ pre) = Inr d"
    and rest: "dedupe_loop env threshold tol
                 (if \<not> d then (base @ pre) @ [it] else base @ pre) items = Inr res"
    by (auto split: sum.splits)
  show ?case
  proof (cases d)
    case True
    with rest Cons.IH [of pre] Cons.prems(2) show ?thesis by simp
  next
    case False
    with d Cons.prems(2) have "all_fresh env threshold tol base (pre @ [it])"
      by (simp add: all_fresh_snoc)
    moreover from False rest
    have "dedupe_loop env threshold tol (base @ (pre @ [it])) items = Inr res" by simp
    ultimately show ?thesis by (rule Cons.IH [rotated])
  qed
qed

lemma dedupe_loop_keeps_fresh:
  "all_fresh env threshold tol accepted xs \<Longrightarrow>
   dedupe_loop env threshold tol accepted xs = Inr (accepted @ xs)"
  by (induction xs arbitrary: accepted) auto

lemma dedupe_items_idem:
  assumes "dedupe_items env items threshold tol = Inr us"
  shows "dedupe_items env us threshold tol = Inr us"
proof -
  from assms have "dedupe_loop env threshold tol ([] @ []) items = Inr us"
    by (simp add: dedupe_items_def)
  then obtain kept where "us = [] @ kept" and "all_fresh env threshold tol [] kept"
    using dedupe_loop_fresh [of env threshold tol "[]" "[]" items us] by auto
  then show ?thesis
    using dedupe_loop_keeps_fresh [of env threshold tol "[]" us]
    by (simp add: dedupe_items_def)
qed

lemma length_dedupe_loop:
  "dedupe_loop env threshold tol unique items = Inr res \<Longrightarrow>
   length res \<le> length unique + length items"
proof (induction items arbitrary: unique)
  case Nil
  then show ?case by simp
next
  case (Cons it items)
  from Cons.prems obtain d where
    "dedupe_loop env threshold tol (if \<not> d then unique @ [it] else unique) items = Inr res"
    by (auto split: sum.splits)
  from Cons.IH [OF this] show ?case by (simp split: if_splits)
qed

lemma demo_dedupe: "dedupe_items_default demo demo_items = Inr demo_unique"
  by code_simp



text \<open>
  C6. \<open>dedupe_items\<close> with its default arguments is idempotent: run on its own output
  it returns that output unchanged (and when the first run raises, there is no output to
  run it on).
\<close>

theorem dedupe_idempotent:
  "bind_err (dedupe_items_default env items) (dedupe_items_default env)
   = dedupe_items_default env items"
proof (cases "dedupe_items_default env items")
  case (Inl e)
  then show ?thesis by (simp add: bind_err_def)
next
  case (Inr us)
  then have "dedupe_items_default env us = Inr us"
    unfolding dedupe_items_default_def by (rule dedupe_items_idem)
  with Inr show ?thesis by (simp add: bind_err_def)
qed

theorem dedupe_idempotent_witness:
  "dedupe_items_default demo demo_items = Inr demo_unique
   \<and> dedupe_items_default demo demo_unique = Inr demo_unique"
  using dedupe_idempotent [of demo demo_items]
  by (simp add: demo_dedupe bind_err_def)

section \<open>The pipeline: \<^verbatim>\<open>extract_from_document\<close>\<close>

lemma make_itm_coerce:
  "(case make_itm env raw of Inl _ \<Rightarrow> None | Inr itm \<Rightarrow> Some itm) = coerce env raw"
proof (cases raw)
  case (JDict kvs)
  then show ?thesis
    by (auto simp: make_itm_def coerce_def cast_def bind_err_def
          split: option.splits sum.splits)
qed (simp_all add: make_itm_def coerce_def bind_err_def)

lemma items_loop_coerce:
  "items_loop env raws (acc, pg)
   = (acc @ List.map_filter (coerce env) raws, pg @ List.map_filter (coerce env) raws)"
proof (induction raws arbitrary: acc pg)
  case Nil
  then show ?case by (simp add: List.map_filter_simps)
next
  case (Cons raw raws)
  show ?case
  proof (cases "make_itm env raw")
    case (Inl e)
    then have "coerce env raw = None"
      using make_itm_coerce [of env raw] by simp
    with Inl Cons.IH show ?thesis by (simp add: List.map_filter_simps)
  next
    case (Inr itm)
    then have "coerce env raw = Some itm"
      using make_itm_coerce [of env raw] by simp
    with Inr Cons.IH show ?thesis by (simp add: List.map_filter_simps)
  qed
qed

lemma process_page_result:
  assumes "process_page env no img st = Inr st'"
  shows "\<exists>items ptype.
           page_bill_items env img = Inr items
           \<and> all_items st' = all_items st @ items
           \<and> pagewise_output st'
               = pagewise_output st @ [\<lparr>page_no = no, page_type = ptype, bill_items = items\<rparr>]"
  using assms
  by (auto simp: process_page_def page_bill_items_def bind_err_def items_loop_coerce
           split: sum.splits prod.splits)

lemma pages_loop_result:
  assumes "pages_loop env no pages st = Inr st'"
  shows "\<exists>new.
           pagewise_output st' = pagewise_output st @ new
           \<and> all_items st' = all_items st @ concat (map bill_items new)
           \<and> map (\<lambda>p. Inr (bill_items p)) new = map (page_bill_items env) pages
           \<and> map page_no new = [no ..< no + length pages]"
  using assms
proof (induction pages arbitrary: no st)
  case Nil
  then show ?case by simp
next
  case (Cons img pages)
  from Cons.prems obtain st1 where p: "process_page env no img st = Inr st1"
    and l: "pages_loop env (no + 1) pages st1 = Inr st'"
    by (auto split: sum.splits)
  from process_page_result [OF p] obtain items ptype where
    i: "page_bill_items env img = Inr items"
    and a: "all_items st1 = all_items st @ items"
    and o: "pagewise_output st1
            = pagewise_output st @ [\<lparr>page_no = no, page_type = ptype, bill_items = items\<rparr>]"
    by blast
  from Cons.IH [OF l] obtain new where
    n: "pagewise_output st' = pagewise_output st1 @ new"
       "all_items st' = all_items st1 @ concat (map bill_items new)"
       "map (\<lambda>p. Inr (bill_items p)) new = map (page_bill_items env) pages"
       "map page_no new = [no + 1 ..< no + 1 + length pages]"
    by blast
  let ?new = "\<lparr>page_no = no, page_type = ptype, bill_items = items\<rparr> # new"
  have "pagewise_output st' = pagewise_output st @ ?new"
    using n(1) o by simp
  moreover have "all_items st' = all_items st @ concat (map bill_items ?new)"
    using n(2) a by simp
  moreover have "map (\<lambda>p. Inr (bill_items p)) ?new = map (page_bill_items env) (img # pages)"
    using n(3) i by simp
  moreover have "map page_no ?new = [no ..< no + length (img # pages)]"
  proof -
    have a: "[no ..< no + length (img # pages)] = no # [Suc no ..< no + length (img # pages)]"
      by (rule upt_conv_Cons) simp
    have d: "Suc no + length pages = no + length (img # pages)"
      by simp
    have e: "[no + 1 ..< no + 1 + length pages] = [Suc no ..< no + length (img # pages)]"
      by (simp only: d [symmetric] Suc_eq_plus1)
    have h: "page_no \<lparr>page_no = no, page_type = ptype, bill_items = items\<rparr> = no"
      by simp
    show ?thesis
      by (simp only: list.map h n(4) e a)
  qed
  ultimately show ?case by blast
qed

lemma length_dedupe_items_default:
  "dedupe_items_default env items = Inr res \<Longrightarrow> length res \<le> length items"
  using length_dedupe_loop [of env _ _ "[]" items res]
  by (simp add: dedupe_items_default_def dedupe_items_def)

lemma demo_call_page1:
  "call_gemini_page demo demo_page1
   = Inr (JDict [(''page_type'', JStr ''Pharmacy''), (''items'', JList demo_raws1)],
          Some 120, Some 0, Some 0)"
  by code_simp

lemma demo_coerce_raws1: "List.map_filter (coerce demo) demo_raws1 = [paracetamol, syringe]"
  by code_simp

lemma demo_extract:
  "extract_from_document demo demo_pdf ''http://host/Bill.PDF''
   = Inr (demo_pagewise, [paracetamol, syringe], 2, 120, 0, 0)"
  by code_simp

text \<open>
  C8. For a page whose parsed object is a dict with a list of raw items (or none), and
  whose usage counters are integers, the page is processed to the end: each raw item is
  coerced (name copied as it is, amount, rate and quantity cast with \<^verbatim>\<open>float\<close>), a raw
  item with a missing field or a failing cast is dropped, and the others are kept, in
  order, in the page's \<^verbatim>\<open>bill_items\<close> and in \<^verbatim>\<open>all_items\<close>.
\<close>

theorem per_item_normalisation:
  assumes "call_gemini_page env img = Inr (JDict kvs, Some t, Some i, Some o')"
      and "(case map_of kvs ''items'' of None \<Rightarrow> JList [] | Some v \<Rightarrow> v) = JList raws"
  shows "process_page env no img st =
           Inr \<lparr>all_items = all_items st @ List.map_filter (coerce env) raws,
                pagewise_output = pagewise_output st @
                  [\<lparr>page_no = no,
                    page_type = (case map_of kvs ''page_type'' of
                                   None \<Rightarrow> JStr ''Bill Detail'' | Some v \<Rightarrow> v),
                    bill_items = List.map_filter (coerce env) raws\<rparr>],
                total_tokens = total_tokens st + t,
                input_tokens = input_tokens st + i,
                output_tokens = output_tokens st + o'\<rparr>"
  using assms
  by (simp add: process_page_def bind_err_def add_tokens_def items_loop_coerce)

theorem per_item_normalisation_witness:
  "call_gemini_page demo demo_page1
     = Inr (JDict [(''page_type'', JStr ''Pharmacy''), (''items'', JList demo_raws1)],
            Some 120, Some 0, Some 0)
   \<and> length demo_raws1 = 3
   \<and> process_page demo 1 demo_page1 initial_state =
       Inr \<lparr>all_items = [paracetamol, syringe],
            pagewise_output =
              [\<lparr>page_no = 1, page_type = JStr ''Pharmacy'',
                bill_items = [paracetamol, syringe]\<rparr>],
            total_tokens = 120, input_tokens = 0, output_tokens = 0\<rparr>"
proof -
  have n: "length demo_raws1 = 3"
    by (simp add: demo_raws1_def)
  show ?thesis
    using per_item_normalisation [OF demo_call_page1, of demo_raws1 1 initial_state] n
    by (simp add: demo_call_page1 demo_coerce_raws1 initial_state_def)
qed

text \<open>
  C2. Whenever the pipeline returns, \<^verbatim>\<open>total_item_count\<close> is the length of the list
  that one run of \<open>dedupe_items\<close> gives on the concatenation, in page order, of the
  pages' \<^verbatim>\<open>bill_items\<close>; each page's \<^verbatim>\<open>bill_items\<close> are all the coerced items of that
  page, not deduplicated; so the count is at most the sum of the lengths of the
  \<^verbatim>\<open>bill_items\<close>.
\<close>

theorem total_item_count_after_dedupe:
  assumes "extract_from_document env file_bytes url
           = Inr (pagewise, unique_items, total_item_count, tt, it, ot)"
  shows "\<exists>pages.
           pdf_or_image_to_pages env file_bytes url = Inr pages
           \<and> map (\<lambda>p. Inr (bill_items p)) pagewise = map (page_bill_items env) pages
           \<and> map page_no pagewise = [1 ..< 1 + length pages]
           \<and> dedupe_items_default env (concat (map bill_items pagewise)) = Inr unique_items
           \<and> total_item_count = length unique_items
           \<and> total_item_count \<le> sum_list (map (\<lambda>p. length (bill_items p)) pagewise)"
proof -
  from assms obtain pages st where
    r: "pdf_or_image_to_pages env file_bytes url = Inr pages"
    and l: "pages_loop env 1 pages initial_state = Inr st"
    and d: "dedupe_items_default env (all_items st) = Inr unique_items"
    and out: "pagewise = pagewise_output st" "total_item_count = length unique_items"
    by (auto simp: extract_from_document_def bind_err_def split: sum.splits)
  from pages_loop_result [OF l] have
    n: "all_items st = concat (map bill_items pagewise)"
       "map (\<lambda>p. Inr (bill_items p)) pagewise = map (page_bill_items env) pages"
       "map page_no pagewise = [1 ..< 1 + length pages]"
    using out(1) by (auto simp: initial_state_def)
  have "length unique_items \<le> length (concat (map bill_items pagewise))"
    using d n(1) length_dedupe_items_default by metis
  then have "total_item_count \<le> sum_list (map (\<lambda>p. length (bill_items p)) pagewise)"
    using out(2) by (simp add: length_concat comp_def)
  with r d n out show ?thesis by auto
qed

theorem total_item_count_after_dedupe_witness:
  "extract_from_document demo demo_pdf ''http://host/Bill.PDF''
     = Inr (demo_pagewise, [paracetamol, syringe], 2, 120, 0, 0)
   \<and> map (\<lambda>p. length (bill_items p)) demo_pagewise = [2, 1]
   \<and> dedupe_items_default demo [paracetamol, syringe, paracetamol_again]
       = Inr [paracetamol, syringe]
   \<and> map page_no demo_pagewise = [1, 2]"
proof -
  from total_item_count_after_dedupe [OF demo_extract] obtain pages where
    p: "pdf_or_image_to_pages demo demo_pdf ''http://host/Bill.PDF'' = Inr pages"
    and d: "dedupe_items_default demo (concat (map bill_items demo_pagewise))
            = Inr [paracetamol, syringe]"
    by blast
  have "concat (map bill_items demo_pagewise) = [paracetamol, syringe, paracetamol_again]"
    by (simp add: demo_pagewise_def)
  with d show ?thesis
    by (simp add: demo_extract) (simp add: demo_pagewise_def)
qed

end
